theory Spec2Isabelle
  imports Main "HOL-Library.AList"
begin

section \<open>Runtime values\<close>

text \<open>
  The library stores values of any type and decides what to do from their runtime shape
  (\<^verbatim>\<open>typeof\<close>, \<^verbatim>\<open>Array.isArray\<close>, \<^verbatim>\<open>Object.is\<close>), so the embedding starts with the
  JavaScript values those tests distinguish.

  Numbers: only the way numbers compare matters here, so a number is \<open>NaN\<close>, negative
  zero, or a number given by its value (\<open>Fin 0\<close> is positive zero).

  Objects and arrays carry the identity of the object (a \<open>nat\<close>) beside their own
  enumerable properties: \<^verbatim>\<open>Object.is\<close> and \<^verbatim>\<open>===\<close> compare objects by that identity, never
  by content. No function of the library writes into an object it was given, so the
  properties travel with the value.

  \<open>Sym\<close> is a symbol of the global symbol registry (\<^verbatim>\<open>Symbol.for(name)\<close>).

  A callable is not a \<open>jsval\<close>: the only place where the library asks
  \<^verbatim>\<open>typeof value === 'function'\<close> is the argument of \<^verbatim>\<open>setValue\<close>, which is an \<open>updater\<close>.
\<close>

datatype jsnum = NaN | NegZero | Fin int

datatype jsval =
    Undefined
  | Null
  | Bool bool
  | Num jsnum
  | Str string
  | Sym string
  | Arr nat "jsval list"
  | Obj nat "(string \<times> jsval) list"

datatype updater = Fn "jsval \<Rightarrow> jsval" | Val jsval

fun typeof :: "jsval \<Rightarrow> string" where
  "typeof Undefined = ''undefined''"
| "typeof Null = ''object''"
| "typeof (Bool b) = ''boolean''"
| "typeof (Num n) = ''number''"
| "typeof (Str s) = ''string''"
| "typeof (Sym s) = ''symbol''"
| "typeof (Arr a xs) = ''object''"
| "typeof (Obj a fs) = ''object''"

fun isArray :: "jsval \<Rightarrow> bool" where
  "isArray (Arr a xs) = True"
| "isArray v = False"

text \<open>\<^verbatim>\<open>Object.is(x, y)\<close>: \<open>NaN\<close> is itself, the two zeros differ, objects by identity.\<close>

fun Object_is :: "jsval \<Rightarrow> jsval \<Rightarrow> bool" where
  "Object_is (Arr a xs) (Arr b ys) = (a = b)"
| "Object_is (Obj a fs) (Obj b gs) = (a = b)"
| "Object_is (Arr a xs) (Obj b gs) = False"
| "Object_is (Obj a fs) (Arr b ys) = False"
| "Object_is x y = (x = y)"

text \<open>\<^verbatim>\<open>x === y\<close>: \<open>NaN\<close> differs from everything, the two zeros are equal.\<close>

fun num_strict_eq :: "jsnum \<Rightarrow> jsnum \<Rightarrow> bool" where
  "num_strict_eq NaN y = False"
| "num_strict_eq x NaN = False"
| "num_strict_eq NegZero y = (y = NegZero \<or> y = Fin 0)"
| "num_strict_eq (Fin i) y = (y = Fin i \<or> (i = 0 \<and> y = NegZero))"

fun strict_eq :: "jsval \<Rightarrow> jsval \<Rightarrow> bool" where
  "strict_eq (Num x) (Num y) = num_strict_eq x y"
| "strict_eq x y = Object_is x y"

subsection \<open>Own properties and object spread\<close>

definition digits :: string where
  "digits = ''0123456789''"

text \<open>The decimal digit \<open>n\<close>; used below with \<open>n < 10\<close> only.\<close>

definition string_of_digit :: "nat \<Rightarrow> char" where
  "string_of_digit n = digits ! n"

fun string_of_nat :: "nat \<Rightarrow> string" where
  "string_of_nat n =
     (if n < 10 then [string_of_digit n]
      else string_of_nat (n div 10) @ [string_of_digit (n mod 10)])"

declare string_of_nat.simps [simp del]

fun index_props :: "nat \<Rightarrow> jsval list \<Rightarrow> (string \<times> jsval) list" where
  "index_props i [] = []"
| "index_props i (x # xs) = (string_of_nat i, x) # index_props (Suc i) xs"

text \<open>
  Copying properties into an object under construction: a key already there keeps its
  place and takes the new value, a new key goes to the end. The list is in the order of
  writing. (JavaScript lists the keys that are array indices first, in ascending order; a
  model object with such keys has the fields of the JavaScript object in another order.
  Fields are read with \<open>getProp\<close>, which does not depend on the order.)
\<close>

fun assign :: "(string \<times> jsval) list \<Rightarrow> (string \<times> jsval) list \<Rightarrow> (string \<times> jsval) list" where
  "assign target [] = target"
| "assign target ((k, v) # ps) = assign (AList.update k v target) ps"

text \<open>
  The own enumerable properties that \<^verbatim>\<open>{ ...v }\<close> copies: the fields of an object, the
  indices of an array, the characters of a string, nothing for the other primitives
  (\<^verbatim>\<open>null\<close> and \<^verbatim>\<open>undefined\<close> included). \<open>Obj a fs\<close> is the object that the literal
  with the fields \<open>fs\<close> builds: a key written twice has the later value.
\<close>

fun ownProps :: "jsval \<Rightarrow> (string \<times> jsval) list" where
  "ownProps (Obj a fs) = assign [] fs"
| "ownProps (Arr a xs) = index_props 0 xs"
| "ownProps (Str s) = index_props 0 (map (\<lambda>c. Str [c]) s)"
| "ownProps v = []"

text \<open>The properties of \<^verbatim>\<open>{ ...a, ...b }\<close>.\<close>

definition spread :: "jsval \<Rightarrow> jsval \<Rightarrow> (string \<times> jsval) list" where
  "spread a b = assign (assign [] (ownProps a)) (ownProps b)"

text \<open>Reading a property: \<^verbatim>\<open>v[k]\<close>, \<^verbatim>\<open>undefined\<close> when \<open>v\<close> has no such own property.\<close>

definition getProp :: "jsval \<Rightarrow> string \<Rightarrow> jsval" where
  "getProp v k = (case map_of (ownProps v) k of Some x \<Rightarrow> x | None \<Rightarrow> Undefined)"

section \<open>Stores and the registry\<close>

text \<open>
  A listener added by \<^verbatim>\<open>subscribeGlobalState\<close> is a closure over the caller's callback and
  the variable \<^verbatim>\<open>prevValue\<close>. The callback is the caller's code: the model names it by a
  number and records each call of it in \<open>calls\<close>, with the listener that made the call. The closure of \<^verbatim>\<open>src/index.tsx\<close> tests
  \<^verbatim>\<open>!Object.is(newValue, prevValue)\<close>, the one of \<^verbatim>\<open>src/hooks/useGlobalState.tsx\<close> tests
  \<^verbatim>\<open>newValue !== prevValue\<close>; \<open>test\<close> says which.
\<close>

datatype change_test = ObjectIsTest | StrictTest

record listener =
  lid :: nat
  callback :: nat
  test :: change_test
  prevValue :: jsval

datatype StorageType = LocalStorage | SessionStorage | NoStorage

record UseGlobalStateOptions =
  storage :: "StorageType option"
  storageKey :: "string option"
  enableDevtools :: "bool option"

text \<open>
  What \<^verbatim>\<open>create(stateCreator)\<close> holds for one key: the state field \<^verbatim>\<open>value\<close>, the variables
  \<^verbatim>\<open>initialState\<close> and \<^verbatim>\<open>isObject\<close> that the closures \<^verbatim>\<open>setValue\<close> and \<^verbatim>\<open>reset\<close> captured, the
  middleware the store was composed with (\<open>persistTo\<close>: the storage and the entry name of
  \<^verbatim>\<open>persist\<close>; \<open>devtoolsName\<close>: the name given to \<^verbatim>\<open>devtools\<close>), and the listeners in the
  order they were added.
\<close>

record store =
  "value" :: jsval
  initialState :: jsval
  isObject :: bool
  persistTo :: "(StorageType \<times> string) option"
  devtoolsName :: "string option"
  listeners :: "listener list"

text \<open>
  Everything the module reads and writes: the map \<^verbatim>\<open>globalStates\<close> (in insertion order), the
  two browser storages (an entry is kept as the value it parses to),
  \<^verbatim>\<open>process.env.NODE_ENV === 'production'\<close>, the lines written with \<^verbatim>\<open>console.warn\<close>, the
  calls made to subscribers' callbacks, and the counters that give a new object and a new
  listener their identity.
\<close>

record world =
  globalStates :: "(string \<times> store) list"
  localStorage :: "(string \<times> jsval) list"
  sessionStorage :: "(string \<times> jsval) list"
  production :: bool
  console :: "string list"
  calls :: "(nat \<times> nat \<times> jsval \<times> jsval) list"
  nextRef :: nat
  nextListener :: nat

definition Map_get :: "(string \<times> 'a) list \<Rightarrow> string \<Rightarrow> 'a option" where
  "Map_get m k = map_of m k"

definition Map_set :: "(string \<times> 'a) list \<Rightarrow> string \<Rightarrow> 'a \<Rightarrow> (string \<times> 'a) list" where
  "Map_set m k v = AList.update k v m"

definition clearAllStates :: "world \<Rightarrow> world" where
  "clearAllStates w = w\<lparr>globalStates := []\<rparr>"

subsection \<open>Committing a write\<close>

fun changed :: "change_test \<Rightarrow> jsval \<Rightarrow> jsval \<Rightarrow> bool" where
  "changed ObjectIsTest newValue prev = (\<not> Object_is newValue prev)"
| "changed StrictTest newValue prev = (\<not> strict_eq newValue prev)"

text \<open>
  One listener of \<^verbatim>\<open>subscribeGlobalState\<close>, run on the new state: when the test says the
  value changed it calls the callback with \<^verbatim>\<open>(newValue, prevValue)\<close> and remembers
  \<^verbatim>\<open>newValue\<close>. The result is the listener afterwards and the calls it made.
\<close>

definition run_listener ::
  "jsval \<Rightarrow> listener \<Rightarrow> listener \<times> (nat \<times> nat \<times> jsval \<times> jsval) list" where
  "run_listener newValue l =
     (if changed (test l) newValue (prevValue l)
      then (l\<lparr>prevValue := newValue\<rparr>, [(lid l, callback l, newValue, prevValue l)])
      else (l, []))"

fun notify ::
  "jsval \<Rightarrow> listener list \<Rightarrow> listener list \<times> (nat \<times> nat \<times> jsval \<times> jsval) list" where
  "notify newValue [] = ([], [])"
| "notify newValue (l # ls) =
     (let (l', cs) = run_listener newValue l;
          (ls', cs') = notify newValue ls
      in (l' # ls', cs @ cs'))"

definition save :: "(StorageType \<times> string) option \<Rightarrow> jsval \<Rightarrow> world \<Rightarrow> world" where
  "save target v w =
     (case target of
        None \<Rightarrow> w
      | Some (LocalStorage, name) \<Rightarrow> w\<lparr>localStorage := Map_set (localStorage w) name v\<rparr>
      | Some (SessionStorage, name) \<Rightarrow> w\<lparr>sessionStorage := Map_set (sessionStorage w) name v\<rparr>
      | Some (NoStorage, name) \<Rightarrow> w)"

text \<open>
  The \<^verbatim>\<open>set\<close> that zustand hands to the state creator, as the library calls it: always with
  a new object \<^verbatim>\<open>{ value: v }\<close> (or a function returning one), which zustand merges into
  the state and then passes to every listener, in order, before it returns. With
  \<^verbatim>\<open>persist\<close> in place the new value is written to the storage entry as part of the same
  call. \<open>commit key s v\<close> does this for the store \<open>s\<close> registered under \<open>key\<close>.
\<close>

definition commit :: "string \<Rightarrow> store \<Rightarrow> jsval \<Rightarrow> world \<Rightarrow> world" where
  "commit key s v w =
     (let (ls, cs) = notify v (listeners s);
          s' = s\<lparr>value := v, listeners := ls\<rparr>;
          w1 = save (persistTo s) v w
      in w1\<lparr>globalStates := Map_set (globalStates w1) key s', calls := calls w1 @ cs\<rparr>)"

subsection \<open>The store's methods\<close>

definition setValue :: "string \<Rightarrow> store \<Rightarrow> updater \<Rightarrow> world \<Rightarrow> world" where
  "setValue key s u w =
     (case u of
        Fn f \<Rightarrow> commit key s (f (value s)) w
      | Val v \<Rightarrow>
          if isObject s \<and> typeof v = ''object'' \<and> v \<noteq> Null
          then commit key s (Obj (nextRef w) (spread (value s) v)) (w\<lparr>nextRef := Suc (nextRef w)\<rparr>)
          else commit key s v w)"

definition reset :: "string \<Rightarrow> store \<Rightarrow> world \<Rightarrow> world" where
  "reset key s w = commit key s (initialState s) w"

subsection \<open>Creating a store\<close>

definition entryName :: "string \<Rightarrow> string \<Rightarrow> string" where
  "entryName pre key = pre @ ''-'' @ key"

definition devtoolsLabel :: "string \<Rightarrow> string" where
  "devtoolsLabel key = ''GlobalState:'' @ key"

text \<open>
  \<^verbatim>\<open>persist\<close> reads its entry when the store is created: a stored value replaces the
  \<^verbatim>\<open>value\<close> of the state creator. The closures keep \<^verbatim>\<open>initialState\<close> whatever was read.
\<close>

definition hydrate :: "StorageType \<Rightarrow> string \<Rightarrow> world \<Rightarrow> jsval option" where
  "hydrate st name w =
     (case st of
        LocalStorage \<Rightarrow> Map_get (localStorage w) name
      | SessionStorage \<Rightarrow> Map_get (sessionStorage w) name
      | NoStorage \<Rightarrow> None)"

definition createStore :: "string \<Rightarrow> jsval \<Rightarrow> StorageType \<Rightarrow> string \<Rightarrow> bool \<Rightarrow> world \<Rightarrow> store" where
  "createStore key initial st pre devtools w =
     \<lparr>value = (if st \<noteq> NoStorage
               then (case hydrate st (entryName pre key) w of
                       Some v \<Rightarrow> v | None \<Rightarrow> initial)
               else initial),
      initialState = initial,
      isObject = (typeof initial = ''object'' \<and> initial \<noteq> Null \<and> \<not> isArray initial),
      persistTo = (if st \<noteq> NoStorage then Some (st, entryName pre key) else None),
      devtoolsName = (if devtools then Some (devtoolsLabel key) else None),
      listeners = []\<rparr>"

text \<open>
  \<^verbatim>\<open>useGlobalState(key, initialState, options)\<close>. The hook returns
  \<^verbatim>\<open>[value, setValue, reset]\<close>: the model returns the value and the world; the two
  functions are \<open>setValue key\<close> and \<open>reset key\<close> on the store found under \<open>key\<close>.
  The test \<^verbatim>\<open>globalStates.has(key)\<close> and the \<^verbatim>\<open>globalStates.get(key)\<close> after it are one lookup.
  Subscribing the calling component to the store is done by the bound hook \<^verbatim>\<open>store(selector)\<close>
  inside React and leaves no trace in the module's own state.
\<close>

definition useGlobalState ::
  "string \<Rightarrow> jsval \<Rightarrow> UseGlobalStateOptions option \<Rightarrow> world \<Rightarrow> jsval \<times> world" where
  "useGlobalState key initial options w =
     (let st = (case options of None \<Rightarrow> NoStorage
                | Some opts \<Rightarrow> (case storage opts of None \<Rightarrow> NoStorage | Some x \<Rightarrow> x));
          sk = (case options of None \<Rightarrow> ''global-state''
                | Some opts \<Rightarrow> (case storageKey opts of None \<Rightarrow> ''global-state'' | Some x \<Rightarrow> x));
          dt = (case options of None \<Rightarrow> \<not> production w
                | Some opts \<Rightarrow> (case enableDevtools opts of None \<Rightarrow> \<not> production w | Some x \<Rightarrow> x))
      in case Map_get (globalStates w) key of
           None \<Rightarrow>
             (let s = createStore key initial st sk dt w
              in (value s, w\<lparr>globalStates := Map_set (globalStates w) key s\<rparr>))
         | Some s \<Rightarrow> (value s, w))"

subsection \<open>Hooks that need an existing store\<close>

text \<open>
  What a hook call can end in: an \<^verbatim>\<open>Error\<close> thrown by the module, with its message, or the
  failure of the render because the component called another sequence of hooks than in its
  previous render (React rejects such a render; which exception reports it depends on the
  hooks that moved).
\<close>

datatype error = Error string | HookOrderChanged

definition notFoundMessage :: "string \<Rightarrow> string" where
  "notFoundMessage key =
     ''Global state with key '' @ [CHR 0x22] @ key @ [CHR 0x22]
       @ '' not found. Initialize it with useGlobalState first.''"

text \<open>
  \<^verbatim>\<open>React.isValidElement\<close>, from React: an object whose \<^verbatim>\<open>$$typeof\<close> is the element symbol
  (\<^verbatim>\<open>Symbol.for('react.element')\<close> in React 18).
\<close>

definition REACT_ELEMENT_TYPE :: jsval where
  "REACT_ELEMENT_TYPE = Sym ''react.element''"

definition isValidElement :: "jsval \<Rightarrow> bool" where
  "isValidElement v =
     (typeof v = ''object'' \<and> v \<noteq> Null \<and> strict_eq (getProp v ''$$typeof'') REACT_ELEMENT_TYPE)"

text \<open>
  The third argument of \<^verbatim>\<open>useGlobalSelector\<close> is \<^verbatim>\<open>undefined\<close> (\<open>None\<close>) or \<^verbatim>\<open>'shallow'\<close>;
  \<open>OtherMode\<close> is any other value, which only a caller outside the type checker can pass and
  which reaches the last \<^verbatim>\<open>return\<close> of the function.
\<close>

datatype equalityMode = ShallowMode | OtherMode

datatype comparison = ByObjectIs | ByShallow

text \<open>
  \<^verbatim>\<open>useGlobalSelector\<close> is a hook: it runs at every render of the component that calls it,
  and React keeps, per component, the state of the hooks the previous render called.
  Of that state the function depends on two things, which \<open>hooks\<close> holds:
  \<^item> \<open>selectorRef\<close>, the content of \<^verbatim>\<open>selectorRef.current\<close>: \<^verbatim>\<open>useRef(selector)\<close> sets it at
    the first render, and the effect \<^verbatim>\<open>selectorRef.current = selector\<close> sets it after every
    render, so a render reads the selector of the render before;
  \<^item> \<open>usedShallow\<close>, whether the previous render called the hook \<^verbatim>\<open>useShallow\<close>: the
    function calls it on one branch only, and a render that calls it when the previous one
    did not, or the other way round, changes the sequence of hooks.
  The argument \<open>prev\<close> is \<open>None\<close> at the first render of a component and the state the
  previous render left afterwards.
\<close>

record hooks =
  selectorRef :: "jsval \<Rightarrow> jsval"
  usedShallow :: bool

text \<open>
  The two ends of the function, \<^verbatim>\<open>store(wrappedSelector)\<close> (\<open>ByObjectIs\<close>) and
  \<^verbatim>\<open>store(useShallow(wrappedSelector))\<close> (\<open>ByShallow\<close>). The bound hook selects from the
  current state and re-renders the component when a later selection differs from the one
  it holds, under \<^verbatim>\<open>Object.is\<close> for the first and zustand's \<^verbatim>\<open>shallow\<close> for the second. The
  result of a render that React accepts is the selection \<open>v\<close> made from the current state,
  the comparison installed, and the hook state left for the next render. (What the bound
  hook hands to the component is \<open>v\<close> or, as zustand decides, an earlier selection that the
  comparison holds equal to \<open>v\<close>.)
\<close>

definition boundHook ::
  "comparison \<Rightarrow> hooks option \<Rightarrow> (jsval \<Rightarrow> jsval) \<Rightarrow> jsval \<Rightarrow> error + jsval \<times> comparison \<times> hooks" where
  "boundHook c prev selector v =
     (case prev of
        None \<Rightarrow> Inr (v, c, \<lparr>selectorRef = selector, usedShallow = (c = ByShallow)\<rparr>)
      | Some h \<Rightarrow>
          if usedShallow h = (c = ByShallow)
          then Inr (v, c, \<lparr>selectorRef = selector, usedShallow = (c = ByShallow)\<rparr>)
          else Inl HookOrderChanged)"

definition useGlobalSelector ::
  "string \<Rightarrow> (jsval \<Rightarrow> jsval) \<Rightarrow> equalityMode option \<Rightarrow> hooks option \<Rightarrow> world
     \<Rightarrow> (error + jsval \<times> comparison \<times> hooks) \<times> world" where
  "useGlobalSelector key selector mode prev w =
     (case Map_get (globalStates w) key of
        None \<Rightarrow> (Inl (Error (notFoundMessage key)), w)
      | Some s \<Rightarrow>
          (let current = (case prev of None \<Rightarrow> selector | Some h \<Rightarrow> selectorRef h);
               wrappedSelector = (\<lambda>state. current (value state))
           in case mode of
                None \<Rightarrow>
                  (let initialValue = wrappedSelector s;
                       shouldUseShallow =
                         (initialValue \<noteq> Null \<and> typeof initialValue = ''object''
                            \<and> \<not> isValidElement initialValue)
                   in if shouldUseShallow
                      then (boundHook ByShallow prev selector (wrappedSelector s), w)
                      else (boundHook ByObjectIs prev selector (wrappedSelector s), w))
              | Some ShallowMode \<Rightarrow> (boundHook ByShallow prev selector (wrappedSelector s), w)
              | Some OtherMode \<Rightarrow> (boundHook ByObjectIs prev selector (wrappedSelector s), w)))"

text \<open>
  \<^verbatim>\<open>useGlobalSetter(key)\<close> returns the setter of the store; the model returns the key under
  which \<open>setValue\<close> finds it.
\<close>

definition useGlobalSetter :: "string \<Rightarrow> world \<Rightarrow> (error + string) \<times> world" where
  "useGlobalSetter key w =
     (case Map_get (globalStates w) key of
        None \<Rightarrow> (Inl (Error (notFoundMessage key)), w)
      | Some s \<Rightarrow> (Inr key, w))"

subsection \<open>Functions for use outside components\<close>

definition warnMissingState :: "string \<Rightarrow> world \<Rightarrow> world" where
  "warnMissingState key w =
     (if \<not> production w then w\<lparr>console := console w @ [notFoundMessage key]\<rparr> else w)"

definition getGlobalState :: "string \<Rightarrow> world \<Rightarrow> jsval" where
  "getGlobalState key w =
     (case Map_get (globalStates w) key of None \<Rightarrow> Undefined | Some s \<Rightarrow> value s)"

definition setGlobalState :: "string \<Rightarrow> updater \<Rightarrow> world \<Rightarrow> world" where
  "setGlobalState key u w =
     (case Map_get (globalStates w) key of
        None \<Rightarrow> warnMissingState key w
      | Some s \<Rightarrow> setValue key s u w)"

text \<open>
  The function returned by \<^verbatim>\<open>subscribeGlobalState\<close>: the empty function, or the one that
  removes the listener from the store.
\<close>

datatype unsubscribe = NoOp | Remove string nat

definition addListener :: "change_test \<Rightarrow> string \<Rightarrow> store \<Rightarrow> nat \<Rightarrow> world \<Rightarrow> unsubscribe \<times> world" where
  "addListener t key s cb w =
     (let l = \<lparr>lid = nextListener w, callback = cb, test = t, prevValue = value s\<rparr>;
          s' = s\<lparr>listeners := listeners s @ [l]\<rparr>
      in (Remove key (nextListener w),
          w\<lparr>globalStates := Map_set (globalStates w) key s',
            nextListener := Suc (nextListener w)\<rparr>))"

definition subscribeGlobalState :: "string \<Rightarrow> nat \<Rightarrow> world \<Rightarrow> unsubscribe \<times> world" where
  "subscribeGlobalState key cb w =
     (case Map_get (globalStates w) key of
        None \<Rightarrow> (NoOp, warnMissingState key w)
      | Some s \<Rightarrow> addListener ObjectIsTest key s cb w)"

text \<open>
  The same function in \<^verbatim>\<open>src/hooks/useGlobalState.tsx\<close>. That module has a
  \<^verbatim>\<open>globalStates\<close> of its own and, line for line, the same \<^verbatim>\<open>useGlobalState\<close>, \<^verbatim>\<open>setValue\<close>,
  \<^verbatim>\<open>reset\<close>, \<^verbatim>\<open>setGlobalState\<close> and \<^verbatim>\<open>resetGlobalState\<close>; only the listener differs, so the
  model runs it on the same world.
\<close>

definition subscribeGlobalState_hooks :: "string \<Rightarrow> nat \<Rightarrow> world \<Rightarrow> unsubscribe \<times> world" where
  "subscribeGlobalState_hooks key cb w =
     (case Map_get (globalStates w) key of
        None \<Rightarrow> (NoOp, warnMissingState key w)
      | Some s \<Rightarrow> addListener StrictTest key s cb w)"

definition call_unsubscribe :: "unsubscribe \<Rightarrow> world \<Rightarrow> world" where
  "call_unsubscribe u w =
     (case u of
        NoOp \<Rightarrow> w
      | Remove key i \<Rightarrow>
          (case Map_get (globalStates w) key of
             None \<Rightarrow> w
           | Some s \<Rightarrow>
               w\<lparr>globalStates :=
                    Map_set (globalStates w) key (s\<lparr>listeners := filter (\<lambda>l. lid l \<noteq> i) (listeners s)\<rparr>)\<rparr>))"

definition resetGlobalState :: "string \<Rightarrow> world \<Rightarrow> world" where
  "resetGlobalState key w =
     (case Map_get (globalStates w) key of
        None \<Rightarrow> warnMissingState key w
      | Some s \<Rightarrow> reset key s w)"

section \<open>Histories of calls\<close>

text \<open>
  The claims speak of every sequence of writes and of keys never created: a history is a
  list of calls of the public functions, run in order. \<^verbatim>\<open>__clearAllStates__\<close> is for tests
  only and is not a call of a history.
\<close>

datatype action =
    UseGlobalState string jsval "UseGlobalStateOptions option"
  | SetGlobalState string updater
  | ResetGlobalState string
  | SubscribeGlobalState string nat
  | Unsubscribe unsubscribe

fun step :: "action \<Rightarrow> world \<Rightarrow> world" where
  "step (UseGlobalState key initial options) w = snd (useGlobalState key initial options w)"
| "step (SetGlobalState key u) w = setGlobalState key u w"
| "step (ResetGlobalState key) w = resetGlobalState key w"
| "step (SubscribeGlobalState key cb) w = snd (subscribeGlobalState key cb w)"
| "step (Unsubscribe u) w = call_unsubscribe u w"

fun run :: "action list \<Rightarrow> world \<Rightarrow> world" where
  "run [] w = w"
| "run (a # as) w = run as (step a w)"

fun creates :: "string \<Rightarrow> action \<Rightarrow> bool" where
  "creates key (UseGlobalState k initial options) = (k = key)"
| "creates key a = False"

text \<open>Writing a list of updaters to one key, and the values these writes commit.\<close>

fun setAll :: "string \<Rightarrow> updater list \<Rightarrow> world \<Rightarrow> world" where
  "setAll key [] w = w"
| "setAll key (u # us) w = setAll key us (setGlobalState key u w)"

fun committed :: "string \<Rightarrow> updater list \<Rightarrow> world \<Rightarrow> jsval list" where
  "committed key [] w = []"
| "committed key (u # us) w =
     getGlobalState key (setGlobalState key u w) # committed key us (setGlobalState key u w)"

text \<open>
  The specification of external subscription, in its own words: from the value last
  observed, a committed value is reported with the value before it exactly when the two
  differ under \<^verbatim>\<open>Object.is\<close>, and is then the value last observed.
\<close>

fun reported :: "jsval \<Rightarrow> jsval list \<Rightarrow> (jsval \<times> jsval) list" where
  "reported prev [] = []"
| "reported prev (v # vs) =
     (if Object_is v prev then reported prev vs else (v, prev) # reported v vs)"

text \<open>The calls a listener has made: the callback with its two arguments, in order.\<close>

definition callsOf :: "nat \<Rightarrow> world \<Rightarrow> (nat \<times> jsval \<times> jsval) list" where
  "callsOf i w = map snd (filter (\<lambda>c. fst c = i) (calls w))"

section \<open>Values used in the scenarios\<close>

text \<open>
  A page that has called nothing yet. Objects written out below have identities under
  100; the objects that \<^verbatim>\<open>setValue\<close> makes are numbered from 100.
\<close>

definition emptyWorld :: "bool \<Rightarrow> world" where
  "emptyWorld p =
     \<lparr>globalStates = [], localStorage = [], sessionStorage = [], production = p,
      console = [], calls = [], nextRef = 100, nextListener = 0\<rparr>"

definition john :: jsval where
  "john = Obj 1 [(''name'', Str ''John''), (''age'', Num (Fin 30))]"

definition jane :: jsval where
  "jane = Obj 2 [(''name'', Str ''Jane'')]"

definition increment :: "jsval \<Rightarrow> jsval" where
  "increment v = (case v of Num (Fin n) \<Rightarrow> Num (Fin (n + 1)) | _ \<Rightarrow> Num NaN)"

definition toJohn :: "jsval \<Rightarrow> jsval" where
  "toJohn v = john"

definition element :: jsval where
  "element = Obj 3 [(''$$typeof'', REACT_ELEMENT_TYPE), (''type'', Str ''div''), (''key'', Null),
     (''ref'', Null), (''props'', Obj 4 [])]"

definition wholeState :: "jsval \<Rightarrow> jsval" where
  "wholeState v = v"

definition toJane :: "jsval \<Rightarrow> jsval" where
  "toJane v = jane"

definition userWorld :: world where
  "userWorld = step (UseGlobalState ''user'' john None) (emptyWorld False)"

definition userStore :: store where
  "userStore = \<lparr>value = john, initialState = john, isObject = True, persistTo = None,
     devtoolsName = Some ''GlobalState:user'', listeners = []\<rparr>"

definition counterWorld :: world where
  "counterWorld = step (UseGlobalState ''counter'' (Num (Fin 0)) None) (emptyWorld False)"

definition nanWorld :: world where
  "nanWorld = step (UseGlobalState ''ratio'' (Num NaN) None) (emptyWorld False)"

definition zeroWorld :: world where
  "zeroWorld = step (UseGlobalState ''zero'' (Num (Fin 0)) None) (emptyWorld False)"

definition elementWorld :: world where
  "elementWorld = step (UseGlobalState ''el'' element None) (emptyWorld False)"

definition elementStore :: store where
  "elementStore = \<lparr>value = element, initialState = element, isObject = True, persistTo = None,
     devtoolsName = Some ''GlobalState:el'', listeners = []\<rparr>"

definition mountedOnCounter :: hooks where
  "mountedOnCounter = \<lparr>selectorRef = wholeState, usedShallow = False\<rparr>"

definition counterStore :: store where
  "counterStore = \<lparr>value = Num (Fin 0), initialState = Num (Fin 0), isObject = False,
     persistTo = None, devtoolsName = Some ''GlobalState:counter'', listeners = []\<rparr>"

section \<open>Lemmas about the registry and about object spread\<close>

lemma Map_get_set_same: "Map_get (Map_set m k v) k = Some v"
  by (simp add: Map_get_def Map_set_def update_conv')

lemma Map_get_set_other: "k' \<noteq> k \<Longrightarrow> Map_get (Map_set m k v) k' = Map_get m k'"
  by (simp add: Map_get_def Map_set_def update_conv')

lemma save_fields:
  "globalStates (save t v w) = globalStates w"
  "calls (save t v w) = calls w"
  "nextRef (save t v w) = nextRef w"
  "nextListener (save t v w) = nextListener w"
  "console (save t v w) = console w"
  "production (save t v w) = production w"
  by (auto simp: save_def split: option.splits StorageType.splits prod.splits)

lemma commit_get_same:
  "Map_get (globalStates (commit key s v w)) key =
     Some (s\<lparr>value := v, listeners := fst (notify v (listeners s))\<rparr>)"
  by (simp add: commit_def Let_def split_def Map_get_set_same save_fields)

lemma commit_get_other:
  "k \<noteq> key \<Longrightarrow> Map_get (globalStates (commit key s v w)) k = Map_get (globalStates w) k"
  by (simp add: commit_def Let_def split_def Map_get_set_other save_fields)

lemma commit_fields:
  "nextRef (commit key s v w) = nextRef w"
  "nextListener (commit key s v w) = nextListener w"
  "console (commit key s v w) = console w"
  "production (commit key s v w) = production w"
  "calls (commit key s v w) = calls w @ snd (notify v (listeners s))"
  by (simp_all add: commit_def Let_def split_def save_fields)

lemma map_of_assign: "map_of (assign t ps) = map_of t ++ map_of (rev ps)"
proof (induction ps arbitrary: t)
  case Nil
  show ?case by simp
next
  case (Cons p ps)
  obtain k v where p: "p = (k, v)" by (cases p)
  show ?case
    by (rule ext) (simp add: p Cons.IH update_conv' map_of_append map_add_def split: option.splits)
qed

lemma distinct_assign: "distinct (map fst t) \<Longrightarrow> distinct (map fst (assign t ps))"
proof (induction ps arbitrary: t)
  case Nil
  then show ?case by simp
next
  case (Cons p ps)
  obtain k v where p: "p = (k, v)" by (cases p)
  show ?case using Cons.prems by (simp add: p Cons.IH distinct_update)
qed

lemma keys_update: "fst ` set (AList.update k v t) = insert k (fst ` set t)"
  by (induction t) auto

lemma keys_assign: "fst ` set (assign t ps) = fst ` set t \<union> fst ` set ps"
proof (induction ps arbitrary: t)
  case Nil
  show ?case by simp
next
  case (Cons p ps)
  obtain k v where p: "p = (k, v)" by (cases p)
  show ?case by (simp add: p Cons.IH keys_update)
qed


lemma map_of_rev_distinct: "distinct (map fst xs) \<Longrightarrow> map_of (rev xs) = map_of xs"
proof (induction xs)
  case Nil
  show ?case by simp
next
  case (Cons x xs)
  obtain k v where x: "x = (k, v)" by (cases x)
  from Cons.prems have k: "map_of xs k = None"
    by (simp add: x map_of_eq_None_iff)
  from Cons.prems have "map_of (rev xs) = map_of xs"
    by (simp add: Cons.IH)
  then show ?case using k
    by (auto simp: x map_of_append map_add_def fun_eq_iff split: option.splits)
qed

lemma string_of_nat_length: "length (string_of_nat n) = 1 \<longleftrightarrow> n < 10"
  by (subst string_of_nat.simps) (auto simp: string_of_nat.simps[of "n div 10"])


lemma digit_inj: "a < 10 \<Longrightarrow> b < 10 \<Longrightarrow> string_of_digit a = string_of_digit b \<Longrightarrow> a = b"
  using nth_eq_iff_index_eq[of digits a b] by (simp add: string_of_digit_def digits_def)

lemma string_of_nat_inj: "string_of_nat n = string_of_nat m \<Longrightarrow> n = m"
proof (induction n arbitrary: m rule: string_of_nat.induct)
  case (1 n)
  show ?case
  proof (cases "n < 10")
    case True
    then have "length (string_of_nat m) = 1"
      using "1.prems" string_of_nat_length[of n] by simp
    then have m: "m < 10" using string_of_nat_length[of m] by simp
    from "1.prems" True m have "string_of_digit n = string_of_digit m"
      by (simp add: string_of_nat.simps[of n] string_of_nat.simps[of m])
    with True m show ?thesis by (rule digit_inj)
  next
    case False
    then have "length (string_of_nat m) \<noteq> 1"
      using "1.prems" string_of_nat_length[of n] by simp
    then have m: "\<not> m < 10" using string_of_nat_length[of m] by simp
    from "1.prems" False m
    have eq: "string_of_nat (n div 10) @ [string_of_digit (n mod 10)]
            = string_of_nat (m div 10) @ [string_of_digit (m mod 10)]"
      by (simp add: string_of_nat.simps[of n] string_of_nat.simps[of m])
    then have "string_of_nat (n div 10) = string_of_nat (m div 10)" by simp
    with False have d: "n div 10 = m div 10" by (rule "1.IH")
    from eq have "string_of_digit (n mod 10) = string_of_digit (m mod 10)" by simp
    then have r: "n mod 10 = m mod 10" by (intro digit_inj) simp_all
    from d r show ?thesis by (metis div_mult_mod_eq)
  qed
qed

lemma keys_index_props: "map fst (index_props i xs) = map string_of_nat [i ..< i + length xs]"
  by (induction xs arbitrary: i) (simp_all add: upt_rec)

lemma distinct_index_props: "distinct (map fst (index_props i xs))"
  by (simp add: keys_index_props distinct_map inj_on_def string_of_nat_inj)

lemma distinct_ownProps: "distinct (map fst (ownProps v))"
  by (cases v) (simp_all add: distinct_assign distinct_index_props)

lemma map_of_spread: "map_of (spread a b) = map_of (ownProps a) ++ map_of (ownProps b)"
  by (simp add: spread_def map_of_assign map_of_rev_distinct distinct_ownProps)

lemma distinct_spread: "distinct (map fst (spread a b))"
  by (simp add: spread_def distinct_assign)


lemma update_fresh: "k \<notin> fst ` set t \<Longrightarrow> AList.update k v t = t @ [(k, v)]"
  by (induction t) auto

lemma assign_distinct: "distinct (map fst (t @ ps)) \<Longrightarrow> assign t ps = t @ ps"
proof (induction ps arbitrary: t)
  case Nil
  show ?case by simp
next
  case (Cons p ps)
  obtain k v where p: "p = (k, v)" by (cases p)
  from Cons.prems have k: "k \<notin> fst ` set t" by (auto simp: p)
  from Cons.prems have "distinct (map fst ((t @ [(k, v)]) @ ps))" by (auto simp: p)
  then have "assign (t @ [(k, v)]) ps = (t @ [(k, v)]) @ ps" by (rule Cons.IH)
  then show ?case by (simp add: p update_fresh[OF k])
qed

lemma ownProps_spread: "ownProps (Obj r (spread a b)) = spread a b"
  using assign_distinct[of "[]" "spread a b"] by (simp add: distinct_spread)

lemma getProp_spread:
  "getProp (Obj r (spread a b)) k =
     (case map_of (ownProps b) k of Some x \<Rightarrow> x | None \<Rightarrow> getProp a k)"
  by (simp only: getProp_def ownProps_spread map_of_spread) (simp add: map_add_def split: option.splits)

lemma keys_spread:
  "fst ` set (ownProps (Obj r (spread a b))) = fst ` set (ownProps a) \<union> fst ` set (ownProps b)"
  by (simp only: ownProps_spread) (simp add: spread_def keys_assign)

subsection \<open>What a history keeps\<close>

lemma setValue_get_same:
  "\<exists>v ls. Map_get (globalStates (setValue key s u w)) key = Some (s\<lparr>value := v, listeners := ls\<rparr>)"
  by (cases u) (auto simp: setValue_def commit_get_same)

lemma setValue_get_other:
  "k \<noteq> key \<Longrightarrow> Map_get (globalStates (setValue key s u w)) k = Map_get (globalStates w) k"
  by (cases u) (auto simp: setValue_def commit_get_other)

lemma warn_globalStates: "globalStates (warnMissingState key w) = globalStates w"
  by (simp add: warnMissingState_def)

lemma step_keeps_store:
  assumes "Map_get (globalStates w) k = Some s"
  shows "\<exists>v ls. Map_get (globalStates (step a w)) k = Some (s\<lparr>value := v, listeners := ls\<rparr>)"
proof -
  have triv: "\<exists>v ls. Some s = Some (s\<lparr>value := v, listeners := ls\<rparr>)"
    by (rule exI[of _ "value s"], rule exI[of _ "listeners s"]) simp
  show ?thesis
  proof (cases a)
    case (UseGlobalState key initial options)
    show ?thesis
    proof (cases "key = k")
      case True
      with assms triv show ?thesis by (simp add: UseGlobalState useGlobalState_def Let_def)
    next
      case False
      with assms triv show ?thesis
        by (auto simp: UseGlobalState useGlobalState_def Let_def Map_get_set_other split: option.splits)
    qed
  next
    case (SetGlobalState key u)
    show ?thesis
    proof (cases "key = k")
      case True
      with assms show ?thesis by (simp add: SetGlobalState setGlobalState_def setValue_get_same)
    next
      case False
      with assms triv show ?thesis
        by (auto simp: SetGlobalState setGlobalState_def setValue_get_other warn_globalStates split: option.splits)
    qed
  next
    case (ResetGlobalState key)
    show ?thesis
    proof (cases "key = k")
      case True
      with assms show ?thesis
        by (auto simp: ResetGlobalState resetGlobalState_def reset_def commit_get_same)
    next
      case False
      with assms triv show ?thesis
        by (auto simp: ResetGlobalState resetGlobalState_def reset_def commit_get_other warn_globalStates split: option.splits)
    qed
  next
    case (SubscribeGlobalState key cb)
    show ?thesis
    proof (cases "key = k")
      case True
      with assms show ?thesis
        by (auto simp: SubscribeGlobalState subscribeGlobalState_def addListener_def Let_def Map_get_set_same
            intro!: exI[of _ "value s"])
    next
      case False
      with assms triv show ?thesis
        by (auto simp: SubscribeGlobalState subscribeGlobalState_def addListener_def Let_def Map_get_set_other warn_globalStates split: option.splits)
    qed
  next
    case (Unsubscribe u)
    show ?thesis
    proof (cases u)
      case NoOp
      with assms triv show ?thesis by (simp add: Unsubscribe call_unsubscribe_def)
    next
      case (Remove key i)
      show ?thesis
      proof (cases "key = k")
        case True
        with assms show ?thesis
          by (auto simp: Unsubscribe Remove call_unsubscribe_def Map_get_set_same intro!: exI[of _ "value s"])
      next
        case False
        with assms triv show ?thesis
          by (auto simp: Unsubscribe Remove call_unsubscribe_def Map_get_set_other split: option.splits)
      qed
    qed
  qed
qed

lemma step_absent:
  assumes "Map_get (globalStates w) k = None" and "\<not> creates k a"
  shows "Map_get (globalStates (step a w)) k = None"
proof (cases a)
  case (UseGlobalState key initial options)
  with assms show ?thesis
    by (auto simp: useGlobalState_def Let_def Map_get_set_other split: option.splits)
next
  case (SetGlobalState key u)
  with assms show ?thesis
    by (cases "key = k")
       (auto simp: setGlobalState_def setValue_get_other warn_globalStates split: option.splits)
next
  case (ResetGlobalState key)
  with assms show ?thesis
    by (cases "key = k")
       (auto simp: resetGlobalState_def reset_def commit_get_other warn_globalStates split: option.splits)
next
  case (SubscribeGlobalState key cb)
  with assms show ?thesis
    by (cases "key = k")
       (auto simp: subscribeGlobalState_def addListener_def Let_def Map_get_set_other warn_globalStates
             split: option.splits)
next
  case (Unsubscribe u)
  show ?thesis
  proof (cases u)
    case NoOp
    with assms Unsubscribe show ?thesis by (simp add: call_unsubscribe_def)
  next
    case (Remove key i)
    with assms Unsubscribe show ?thesis
      by (cases "key = k") (auto simp: call_unsubscribe_def Map_get_set_other split: option.splits)
  qed
qed

lemma run_keeps_store:
  "Map_get (globalStates w) k = Some s \<Longrightarrow>
   \<exists>v ls. Map_get (globalStates (run acts w)) k = Some (s\<lparr>value := v, listeners := ls\<rparr>)"
proof (induction acts arbitrary: w s)
  case Nil
  then show ?case
    by (auto intro!: exI[of _ "value s"] exI[of _ "listeners s"])
next
  case (Cons a acts)
  from step_keeps_store[OF Cons.prems, of a] obtain v ls
    where "Map_get (globalStates (step a w)) k = Some (s\<lparr>value := v, listeners := ls\<rparr>)"
    by blast
  from Cons.IH[OF this] show ?case by simp
qed

lemma run_absent:
  "Map_get (globalStates w) k = None \<Longrightarrow> \<not> list_ex (creates k) acts \<Longrightarrow>
   Map_get (globalStates (run acts w)) k = None"
  by (induction acts arbitrary: w) (simp_all add: step_absent)

lemma useGlobalState_creates:
  assumes "Map_get (globalStates w) key = None"
  shows "\<exists>st pre dt. snd (useGlobalState key initial options w)
           = w\<lparr>globalStates := Map_set (globalStates w) key (createStore key initial st pre dt w)\<rparr>"
  using assms by (auto simp: useGlobalState_def Let_def)

lemma createStore_fields:
  "initialState (createStore key initial st pre dt w) = initial"
  "isObject (createStore key initial st pre dt w)
     = (typeof initial = ''object'' \<and> initial \<noteq> Null \<and> \<not> isArray initial)"
  "listeners (createStore key initial st pre dt w) = []"
  by (simp_all add: createStore_def)

lemma step_shape:
  assumes inv: "\<And>k s. Map_get (globalStates w) k = Some s \<Longrightarrow>
             isObject s = (typeof (initialState s) = ''object'' \<and> initialState s \<noteq> Null \<and> \<not> isArray (initialState s))"
    and s': "Map_get (globalStates (step a w)) k = Some s'"
  shows "isObject s' = (typeof (initialState s') = ''object'' \<and> initialState s' \<noteq> Null \<and> \<not> isArray (initialState s'))"
proof (cases "Map_get (globalStates w) k")
  case (Some s)
  from step_keeps_store[OF Some, of a] s' obtain v ls where "s' = s\<lparr>value := v, listeners := ls\<rparr>"
    by auto
  with inv[OF Some] show ?thesis by simp
next
  case None
  with s' have c: "creates k a" using step_absent[of w k a] by auto
  then obtain initial options where a: "a = UseGlobalState k initial options"
    by (cases a) auto
  from useGlobalState_creates[OF None, of initial options] obtain st pre dt where
    "snd (useGlobalState k initial options w)
       = w\<lparr>globalStates := Map_set (globalStates w) k (createStore k initial st pre dt w)\<rparr>"
    by blast
  with s' a have "s' = createStore k initial st pre dt w"
    by (simp add: Map_get_set_same)
  then show ?thesis by (simp add: createStore_fields)
qed

lemma run_shape:
  assumes "globalStates w = []" and "Map_get (globalStates (run acts w)) k = Some s"
  shows "isObject s = (typeof (initialState s) = ''object'' \<and> initialState s \<noteq> Null \<and> \<not> isArray (initialState s))"
proof -
  have "(\<forall>k s. Map_get (globalStates w) k = Some s \<longrightarrow>
             isObject s = (typeof (initialState s) = ''object'' \<and> initialState s \<noteq> Null \<and> \<not> isArray (initialState s)))
        \<Longrightarrow> (\<forall>k s. Map_get (globalStates (run acts w)) k = Some s \<longrightarrow>
             isObject s = (typeof (initialState s) = ''object'' \<and> initialState s \<noteq> Null \<and> \<not> isArray (initialState s)))"
  proof (induction acts arbitrary: w)
    case Nil
    then show ?case by simp
  next
    case (Cons a acts)
    have "\<forall>k s. Map_get (globalStates (step a w)) k = Some s \<longrightarrow>
             isObject s = (typeof (initialState s) = ''object'' \<and> initialState s \<noteq> Null \<and> \<not> isArray (initialState s))"
      using step_shape[of w a] Cons.prems by blast
    from Cons.IH[OF this] show ?case by simp
  qed
  moreover have "\<forall>k s. Map_get (globalStates w) k = Some s \<longrightarrow>
             isObject s = (typeof (initialState s) = ''object'' \<and> initialState s \<noteq> Null \<and> \<not> isArray (initialState s))"
    using assms(1) by (simp add: Map_get_def)
  ultimately show ?thesis using assms(2) by blast
qed

subsection \<open>Reading back what a call wrote\<close>

lemma Object_is_refl: "Object_is x x"
  by (cases x) simp_all

lemma created_then_run:
  assumes "Map_get (globalStates w0) key = None"
  shows "\<exists>s. Map_get (globalStates (run acts (step (UseGlobalState key initial options) w0))) key = Some s
           \<and> initialState s = initial
           \<and> isObject s = (typeof initial = ''object'' \<and> initial \<noteq> Null \<and> \<not> isArray initial)"
proof -
  from useGlobalState_creates[OF assms, of initial options] obtain st pre dt where
    "snd (useGlobalState key initial options w0)
       = w0\<lparr>globalStates := Map_set (globalStates w0) key (createStore key initial st pre dt w0)\<rparr>"
    by blast
  then have "Map_get (globalStates (step (UseGlobalState key initial options) w0)) key
       = Some (createStore key initial st pre dt w0)"
    by (simp add: Map_get_set_same)
  from run_keeps_store[OF this, of acts] show ?thesis
    by (auto simp: createStore_fields)
qed

lemma setGlobalState_value:
  assumes "Map_get (globalStates w) key = Some s"
  shows "getGlobalState key (setGlobalState key (Val v) w)
           = (if isObject s \<and> typeof v = ''object'' \<and> v \<noteq> Null
              then Obj (nextRef w) (spread (value s) v) else v)"
    and "nextRef (setGlobalState key (Val v) w)
           = (if isObject s \<and> typeof v = ''object'' \<and> v \<noteq> Null
              then Suc (nextRef w) else nextRef w)"
  using assms
  by (simp_all add: setGlobalState_def setValue_def getGlobalState_def commit_get_same commit_fields)

lemma resetGlobalState_value:
  assumes "Map_get (globalStates w) key = Some s"
  shows "getGlobalState key (resetGlobalState key w) = initialState s"
    and "nextRef (resetGlobalState key w) = nextRef w"
  using assms
  by (simp_all add: resetGlobalState_def reset_def getGlobalState_def commit_get_same commit_fields)

section \<open>The scenarios, evaluated\<close>

lemmas api_defs = string_of_digit_def digits_def useGlobalState_def createStore_def hydrate_def entryName_def devtoolsLabel_def
  setGlobalState_def setValue_def reset_def resetGlobalState_def commit_def save_def
  getGlobalState_def subscribeGlobalState_def subscribeGlobalState_hooks_def addListener_def
  call_unsubscribe_def warnMissingState_def useGlobalSelector_def boundHook_def useGlobalSetter_def
  Map_get_def Map_set_def run_listener_def spread_def getProp_def
  notFoundMessage_def isValidElement_def REACT_ELEMENT_TYPE_def callsOf_def

lemmas fixture_defs = emptyWorld_def john_def jane_def increment_def toJohn_def toJane_def
  element_def wholeState_def userWorld_def userStore_def counterWorld_def counterStore_def
  nanWorld_def zeroWorld_def elementWorld_def elementStore_def mountedOnCounter_def

lemma userWorld_store: "Map_get (globalStates userWorld) ''user'' = Some userStore"
  by (simp add: api_defs fixture_defs)


section \<open>The claims\<close>

text \<open>
  C3. For every current value \<open>v\<close> and every functional updater \<open>f\<close>, \<^verbatim>\<open>set(f)\<close> commits
  exactly \<open>f v\<close>: the value read back is \<open>f v\<close> whatever the shapes of \<open>v\<close> and \<open>f v\<close> are, and
  no merged object is made (the counter of new objects does not move).
\<close>

theorem functional_update_replaces:
  assumes "Map_get (globalStates w) key = Some s"
  shows "getGlobalState key (setGlobalState key (Fn f) w) = f (value s)
       \<and> nextRef (setGlobalState key (Fn f) w) = nextRef w"
  using assms
  by (simp add: setGlobalState_def setValue_def getGlobalState_def commit_get_same commit_fields)

text \<open>
  On the store \<^verbatim>\<open>user = {name: "John", age: 30}\<close>, the updater that returns
  \<^verbatim>\<open>{name: "Jane"}\<close> leaves exactly that object: \<^verbatim>\<open>age\<close> is gone.
\<close>

theorem functional_update_replaces_witness:
  "getGlobalState ''user'' (setGlobalState ''user'' (Fn toJane) userWorld) = jane
   \<and> nextRef (setGlobalState ''user'' (Fn toJane) userWorld) = nextRef userWorld"
  using functional_update_replaces[OF userWorld_store, of toJane]
  by (simp add: userStore_def toJane_def)

text \<open>
  C5. A call of \<^verbatim>\<open>useGlobalState\<close> with a key that already has a store returns the value of
  that store and changes nothing: the initial value and the options of the call are
  dropped.
\<close>

theorem second_creation_ignored:
  assumes "Map_get (globalStates w) key = Some s"
  shows "useGlobalState key initial options w = (value s, w)"
  using assms by (simp add: useGlobalState_def Let_def)

text \<open>Scenario D: key \<^verbatim>\<open>"k"\<close> created with 1, then with 99; every reader sees 1.\<close>

theorem second_creation_ignored_witness:
  "useGlobalState ''k'' (Num (Fin 99)) None (step (UseGlobalState ''k'' (Num (Fin 1)) None) (emptyWorld False))
     = (Num (Fin 1), step (UseGlobalState ''k'' (Num (Fin 1)) None) (emptyWorld False))
   \<and> getGlobalState ''k'' (step (UseGlobalState ''k'' (Num (Fin 99)) None)
         (step (UseGlobalState ''k'' (Num (Fin 1)) None) (emptyWorld False))) = Num (Fin 1)"
proof -
  let ?w = "step (UseGlobalState ''k'' (Num (Fin 1)) None) (emptyWorld False)"
  have h: "Map_get (globalStates ?w) ''k''
      = Some \<lparr>value = Num (Fin 1), initialState = Num (Fin 1), isObject = False, persistTo = None,
          devtoolsName = Some ''GlobalState:k'', listeners = []\<rparr>"
    by (simp add: api_defs fixture_defs)
  have g: "getGlobalState ''k'' ?w = Num (Fin 1)"
    using h by (simp add: getGlobalState_def)
  from second_creation_ignored[OF h, of "Num (Fin 99)" None] g show ?thesis by simp
qed

text \<open>
  C6. For a key that no call of the history has created, \<^verbatim>\<open>useGlobalSelector\<close> and
  \<^verbatim>\<open>useGlobalSetter\<close> throw an \<^verbatim>\<open>Error\<close> whose message quotes the key and tells the caller to
  initialise it with \<^verbatim>\<open>useGlobalState\<close> first; the world is as it was.
\<close>

theorem missing_store_throws:
  assumes "globalStates w0 = []" and "\<not> list_ex (creates key) acts"
  shows "useGlobalSelector key selector mode ref (run acts w0)
           = (Inl (Error (''Global state with key '' @ [CHR 0x22] @ key @ [CHR 0x22]
                 @ '' not found. Initialize it with useGlobalState first.'')), run acts w0)
       \<and> useGlobalSetter key (run acts w0)
           = (Inl (Error (''Global state with key '' @ [CHR 0x22] @ key @ [CHR 0x22]
                 @ '' not found. Initialize it with useGlobalState first.'')), run acts w0)"
proof -
  from assms(1) have "Map_get (globalStates w0) key = None" by (simp add: Map_get_def)
  from run_absent[OF this assms(2)] show ?thesis
    by (simp add: useGlobalSelector_def useGlobalSetter_def notFoundMessage_def)
qed

text \<open>
  A history that creates \<^verbatim>\<open>counter\<close> and writes to the missing \<^verbatim>\<open>user\<close>: both hooks throw
  for \<^verbatim>\<open>user\<close>.
\<close>

theorem missing_store_throws_witness:
  "useGlobalSelector ''user'' wholeState None None
      (run [UseGlobalState ''counter'' (Num (Fin 0)) None, SetGlobalState ''user'' (Val jane)] (emptyWorld True))
     = (Inl (Error (''Global state with key '' @ [CHR 0x22] @ ''user'' @ [CHR 0x22]
                 @ '' not found. Initialize it with useGlobalState first.'')),
        run [UseGlobalState ''counter'' (Num (Fin 0)) None, SetGlobalState ''user'' (Val jane)] (emptyWorld True))
   \<and> useGlobalSetter ''user''
      (run [UseGlobalState ''counter'' (Num (Fin 0)) None, SetGlobalState ''user'' (Val jane)] (emptyWorld True))
     = (Inl (Error (''Global state with key '' @ [CHR 0x22] @ ''user'' @ [CHR 0x22]
                 @ '' not found. Initialize it with useGlobalState first.'')),
        run [UseGlobalState ''counter'' (Num (Fin 0)) None, SetGlobalState ''user'' (Val jane)] (emptyWorld True))"
proof -
  have e: "globalStates (emptyWorld True) = []" by (simp add: emptyWorld_def)
  have n: "\<not> list_ex (creates ''user'')
      [UseGlobalState ''counter'' (Num (Fin 0)) None, SetGlobalState ''user'' (Val jane)]"
    by simp
  from missing_store_throws[OF e n, of wholeState None None] show ?thesis .
qed

text \<open>
  C7, as stated, fails in a production build: the warning is written only when
  \<^verbatim>\<open>process.env.NODE_ENV !== 'production'\<close>, so there \<^verbatim>\<open>setGlobalState\<close>,
  \<^verbatim>\<open>subscribeGlobalState\<close> and \<^verbatim>\<open>resetGlobalState\<close> on a missing key report nothing.
\<close>

theorem missing_store_soft_counterexample:
  "console (setGlobalState ''missing'' (Val Null) (emptyWorld True)) = []
   \<and> console (snd (subscribeGlobalState ''missing'' 7 (emptyWorld True))) = []
   \<and> console (resetGlobalState ''missing'' (emptyWorld True)) = []"
  by (simp add: api_defs emptyWorld_def)

text \<open>
  C7, amended. For a key with no store, \<^verbatim>\<open>setGlobalState\<close>, \<^verbatim>\<open>subscribeGlobalState\<close> and
  \<^verbatim>\<open>resetGlobalState\<close> do not throw and change nothing but the console: outside production
  they write one warning naming the key, in production they write nothing.
  \<^verbatim>\<open>subscribeGlobalState\<close> returns an unsubscribe function that does nothing, and
  \<^verbatim>\<open>getGlobalState\<close> returns \<^verbatim>\<open>undefined\<close> and writes nothing in either mode.
\<close>

theorem missing_store_soft:
  assumes "Map_get (globalStates w) key = None"
  shows "setGlobalState key u w
           = (if production w then w else w\<lparr>console := console w @ [notFoundMessage key]\<rparr>)
       \<and> resetGlobalState key w
           = (if production w then w else w\<lparr>console := console w @ [notFoundMessage key]\<rparr>)
       \<and> subscribeGlobalState key cb w
           = (NoOp, if production w then w else w\<lparr>console := console w @ [notFoundMessage key]\<rparr>)
       \<and> call_unsubscribe NoOp w = w
       \<and> getGlobalState key w = Undefined"
  using assms
  by (simp add: setGlobalState_def resetGlobalState_def subscribeGlobalState_def
      warnMissingState_def call_unsubscribe_def getGlobalState_def)

text \<open>The development build, on an empty registry.\<close>

theorem missing_store_soft_witness:
  "setGlobalState ''missing'' (Val Null) (emptyWorld False)
     = (emptyWorld False)\<lparr>console := [notFoundMessage ''missing'']\<rparr>
   \<and> resetGlobalState ''missing'' (emptyWorld False)
     = (emptyWorld False)\<lparr>console := [notFoundMessage ''missing'']\<rparr>
   \<and> subscribeGlobalState ''missing'' 7 (emptyWorld False)
     = (NoOp, (emptyWorld False)\<lparr>console := [notFoundMessage ''missing'']\<rparr>)
   \<and> getGlobalState ''missing'' (emptyWorld False) = Undefined"
proof -
  have h: "Map_get (globalStates (emptyWorld False)) ''missing'' = None"
    by (simp add: emptyWorld_def Map_get_def)
  from missing_store_soft[OF h, of "Val Null" 7] show ?thesis
    by (simp add: emptyWorld_def)
qed

text \<open>
  C1, as stated, fails: on the store \<^verbatim>\<open>user = {name: "John", age: 30}\<close> the updater
  \<^verbatim>\<open>["Jane"]\<close> is an array, so the claim has it replace the value; the code merges it,
  because its test of the updater is \<^verbatim>\<open>typeof value === 'object' && value !== null\<close>. And on
  the store \<^verbatim>\<open>counter\<close>, created with \<open>0\<close> and now holding the plain object
  \<^verbatim>\<open>{name: "John", age: 30}\<close>, the plain object \<^verbatim>\<open>{name: "Jane"}\<close> is not merged, as the claim
  has it, but replaces the value, and no object is made: \<^verbatim>\<open>isObject\<close> was computed from the
  initial value.
\<close>

theorem merge_path_counterexample:
  "getGlobalState ''user'' (setGlobalState ''user'' (Val (Arr 2 [Str ''Jane''])) userWorld)
     = Obj 100 [(''name'', Str ''John''), (''age'', Num (Fin 30)), (''0'', Str ''Jane'')]
   \<and> getGlobalState ''user'' (setGlobalState ''user'' (Val (Arr 2 [Str ''Jane''])) userWorld)
     \<noteq> Arr 2 [Str ''Jane'']
   \<and> getGlobalState ''counter'' (run [SetGlobalState ''counter'' (Val john)] counterWorld) = john
   \<and> getGlobalState ''counter''
       (run [SetGlobalState ''counter'' (Val john), SetGlobalState ''counter'' (Val jane)] counterWorld)
     = jane
   \<and> nextRef (run [SetGlobalState ''counter'' (Val john), SetGlobalState ''counter'' (Val jane)]
         counterWorld) = nextRef counterWorld"
  by (simp add: api_defs fixture_defs string_of_nat.simps)

text \<open>
  C1, amended. For every store of a history that began with an empty registry and every
  updater \<open>v\<close> that is not a function: \<^verbatim>\<open>set(v)\<close> takes the merge branch (it makes a new
  object with the properties of \<^verbatim>\<open>{ ...current, ...v }\<close>) if and only if the initial value of
  the store is a non-null object that is not an array and \<open>v\<close> is a non-null object, arrays
  included; in every other case it commits \<open>v\<close> itself and makes no object.
\<close>

theorem merge_path_iff:
  assumes "globalStates w0 = []" and "Map_get (globalStates (run acts w0)) key = Some s"
  shows "(if (typeof (initialState s) = ''object'' \<and> initialState s \<noteq> Null \<and> \<not> isArray (initialState s))
             \<and> typeof v = ''object'' \<and> v \<noteq> Null
          then getGlobalState key (setGlobalState key (Val v) (run acts w0))
                 = Obj (nextRef (run acts w0)) (spread (value s) v)
             \<and> nextRef (setGlobalState key (Val v) (run acts w0)) = Suc (nextRef (run acts w0))
          else getGlobalState key (setGlobalState key (Val v) (run acts w0)) = v
             \<and> nextRef (setGlobalState key (Val v) (run acts w0)) = nextRef (run acts w0))"
  using run_shape[OF assms] setGlobalState_value[OF assms(2), of v] by simp

text \<open>The store \<^verbatim>\<open>user\<close> again, with the array as updater.\<close>

theorem merge_path_iff_witness:
  "getGlobalState ''user'' (setGlobalState ''user'' (Val (Arr 2 [Str ''Jane'']))
       (run [UseGlobalState ''user'' john None] (emptyWorld False)))
     = Obj 100 (spread john (Arr 2 [Str ''Jane'']))
   \<and> nextRef (setGlobalState ''user'' (Val (Arr 2 [Str ''Jane'']))
       (run [UseGlobalState ''user'' john None] (emptyWorld False))) = 101"
proof -
  have e: "globalStates (emptyWorld False) = []" by (simp add: emptyWorld_def)
  have h: "Map_get (globalStates (run [UseGlobalState ''user'' john None] (emptyWorld False))) ''user''
      = Some userStore"
    using userWorld_store by (simp add: userWorld_def)
  from merge_path_iff[OF e h, of "Arr 2 [Str ''Jane'']"] show ?thesis
    by (simp add: userStore_def john_def emptyWorld_def useGlobalState_def Let_def Map_get_def)
qed

text \<open>
  C2, as stated, fails: a store created with \<^verbatim>\<open>null\<close> and then given
  \<^verbatim>\<open>{name: "John", age: 30}\<close> holds a plain object, yet \<^verbatim>\<open>set({name: "Jane"})\<close> leaves
  \<^verbatim>\<open>{name: "Jane"}\<close>: the field \<^verbatim>\<open>age\<close> is lost.
\<close>

theorem partial_update_counterexample:
  "getGlobalState ''profile''
      (run [UseGlobalState ''profile'' Null None, SetGlobalState ''profile'' (Val john)] (emptyWorld False))
     = john
   \<and> getGlobalState ''profile''
      (run [UseGlobalState ''profile'' Null None, SetGlobalState ''profile'' (Val john),
            SetGlobalState ''profile'' (Val jane)] (emptyWorld False))
     = jane
   \<and> getProp (getGlobalState ''profile''
      (run [UseGlobalState ''profile'' Null None, SetGlobalState ''profile'' (Val john),
            SetGlobalState ''profile'' (Val jane)] (emptyWorld False))) ''age''
     = Undefined"
  by (simp add: api_defs fixture_defs)

text \<open>
  C2, amended. For every store created with a plain-object initial value, whatever was
  called since: when its current value is a plain object \<open>v\<close> and \<open>p\<close> is a plain object,
  \<^verbatim>\<open>set(p)\<close> commits a new object with the properties of \<^verbatim>\<open>{ ...v, ...p }\<close>: every field named
  in \<open>p\<close> has the value \<open>p\<close> gives it, every other field has the value it has in \<open>v\<close>, and
  there are no further fields.
\<close>

theorem partial_update_merges:
  assumes "Map_get (globalStates w0) key = None"
    and "typeof initial = ''object'' \<and> initial \<noteq> Null \<and> \<not> isArray initial"
    and "getGlobalState key (run acts (step (UseGlobalState key initial options) w0)) = Obj a vf"
  shows "getGlobalState key
           (setGlobalState key (Val (Obj b pf)) (run acts (step (UseGlobalState key initial options) w0)))
         = Obj (nextRef (run acts (step (UseGlobalState key initial options) w0)))
               (spread (Obj a vf) (Obj b pf))
       \<and> (\<forall>k. getProp (getGlobalState key
                 (setGlobalState key (Val (Obj b pf)) (run acts (step (UseGlobalState key initial options) w0)))) k
              = (case map_of (ownProps (Obj b pf)) k of
                   Some x \<Rightarrow> x
                 | None \<Rightarrow> getProp (Obj a vf) k))
       \<and> fst ` set (ownProps (getGlobalState key
                 (setGlobalState key (Val (Obj b pf)) (run acts (step (UseGlobalState key initial options) w0)))))
           = fst ` set (ownProps (Obj a vf)) \<union> fst ` set (ownProps (Obj b pf))"
proof -
  let ?w = "run acts (step (UseGlobalState key initial options) w0)"
  from created_then_run[OF assms(1), of acts initial options] obtain s where
    s: "Map_get (globalStates ?w) key = Some s" and o: "isObject s"
    using assms(2) by auto
  from s assms(3) have v: "value s = Obj a vf" by (simp add: getGlobalState_def)
  from setGlobalState_value(1)[OF s, of "Obj b pf"] o v
  have "getGlobalState key (setGlobalState key (Val (Obj b pf)) ?w)
          = Obj (nextRef ?w) (spread (Obj a vf) (Obj b pf))"
    by simp
  then show ?thesis
    by (simp only: getProp_spread keys_spread) simp
qed

text \<open>Scenario B: \<^verbatim>\<open>user = {name: "John", age: 30}\<close>, then \<^verbatim>\<open>set({name: "Jane"})\<close>.\<close>

theorem partial_update_merges_witness:
  "getGlobalState ''user'' (setGlobalState ''user'' (Val jane) userWorld)
     = Obj 100 [(''name'', Str ''Jane''), (''age'', Num (Fin 30))]
   \<and> getProp (getGlobalState ''user'' (setGlobalState ''user'' (Val jane) userWorld)) ''name'' = Str ''Jane''
   \<and> getProp (getGlobalState ''user'' (setGlobalState ''user'' (Val jane) userWorld)) ''age'' = Num (Fin 30)"
proof -
  have n: "Map_get (globalStates (emptyWorld False)) ''user'' = None"
    by (simp add: emptyWorld_def Map_get_def)
  have p: "typeof john = ''object'' \<and> john \<noteq> Null \<and> \<not> isArray john"
    by (simp add: john_def)
  have c: "getGlobalState ''user'' (run [] (step (UseGlobalState ''user'' john None) (emptyWorld False)))
      = Obj 1 [(''name'', Str ''John''), (''age'', Num (Fin 30))]"
    by (simp add: api_defs fixture_defs)
  have r: "nextRef (step (UseGlobalState ''user'' john None) (emptyWorld False)) = 100"
    by (simp add: api_defs fixture_defs)
  from partial_update_merges[OF n p c, of 2 "[(''name'', Str ''Jane'')]", THEN conjunct1]
  have "getGlobalState ''user'' (setGlobalState ''user'' (Val jane) userWorld)
      = Obj 100 [(''name'', Str ''Jane''), (''age'', Num (Fin 30))]"
    using r by (simp add: userWorld_def jane_def spread_def)
  then show ?thesis
    by (simp add: getProp_def)
qed

text \<open>
  C4. After the first creation of a key with the value \<open>initial\<close> and any history of
  calls, \<^verbatim>\<open>reset\<close> commits \<open>initial\<close> itself: the value read back is \<open>initial\<close>, the same
  object under \<^verbatim>\<open>Object.is\<close>, no new object is made (the merge branch is not taken even
  when \<open>initial\<close> is a plain object), and a later reset, after any further calls, gives
  \<open>initial\<close> again.
\<close>

theorem reset_restores_initial:
  assumes "Map_get (globalStates w0) key = None"
  shows "getGlobalState key
           (resetGlobalState key (run acts (step (UseGlobalState key initial options) w0))) = initial
       \<and> Object_is (getGlobalState key
           (resetGlobalState key (run acts (step (UseGlobalState key initial options) w0)))) initial
       \<and> nextRef (resetGlobalState key (run acts (step (UseGlobalState key initial options) w0)))
           = nextRef (run acts (step (UseGlobalState key initial options) w0))
       \<and> getGlobalState key
           (resetGlobalState key
              (run later (resetGlobalState key (run acts (step (UseGlobalState key initial options) w0)))))
           = initial"
proof -
  let ?w = "run acts (step (UseGlobalState key initial options) w0)"
  from created_then_run[OF assms, of acts initial options] obtain s where
    s: "Map_get (globalStates ?w) key = Some s" and i: "initialState s = initial"
    by auto
  have a: "getGlobalState key (resetGlobalState key ?w) = initial"
    using resetGlobalState_value(1)[OF s] i by simp
  have b: "nextRef (resetGlobalState key ?w) = nextRef ?w"
    using resetGlobalState_value(2)[OF s] .
  from step_keeps_store[OF s, of "ResetGlobalState key"] obtain v ls where
    "Map_get (globalStates (resetGlobalState key ?w)) key = Some (s\<lparr>value := v, listeners := ls\<rparr>)"
    by auto
  from run_keeps_store[OF this, of later] obtain v' ls' where
    s': "Map_get (globalStates (run later (resetGlobalState key ?w))) key
          = Some (s\<lparr>value := v', listeners := ls'\<rparr>)"
    by auto
  have c: "getGlobalState key (resetGlobalState key (run later (resetGlobalState key ?w))) = initial"
    using resetGlobalState_value(1)[OF s'] i by simp
  from a b c show ?thesis by (simp add: Object_is_refl)
qed

text \<open>
  The store \<^verbatim>\<open>user\<close>, overwritten twice so that it holds \<^verbatim>\<open>{name: "Jane"}\<close>, then reset.
\<close>

theorem reset_restores_initial_witness:
  "getGlobalState ''user''
     (resetGlobalState ''user''
        (run [SetGlobalState ''user'' (Val jane), SetGlobalState ''user'' (Fn toJane)]
           (step (UseGlobalState ''user'' john None) (emptyWorld False)))) = john
   \<and> getGlobalState ''user''
        (run [SetGlobalState ''user'' (Val jane), SetGlobalState ''user'' (Fn toJane)]
           (step (UseGlobalState ''user'' john None) (emptyWorld False))) = jane"
proof -
  have n: "Map_get (globalStates (emptyWorld False)) ''user'' = None"
    by (simp add: emptyWorld_def Map_get_def)
  have "getGlobalState ''user''
        (run [SetGlobalState ''user'' (Val jane), SetGlobalState ''user'' (Fn toJane)]
           (step (UseGlobalState ''user'' john None) (emptyWorld False))) = jane"
    by (simp add: api_defs fixture_defs)
  with reset_restores_initial[OF n,
      of "[SetGlobalState ''user'' (Val jane), SetGlobalState ''user'' (Fn toJane)]" john None "[]"]
  show ?thesis by simp
qed

text \<open>
  C10. The choice between merging and replacing is made from the initial value, once.
  When the key was created with a value that is not a non-null, non-array object, every
  updater that is not a function replaces the value, whatever the current value has
  become. When it was created with such an object, every non-null object updater, an
  array too, is merged into the current value.
\<close>

theorem merge_decision_fixed_at_creation:
  assumes "Map_get (globalStates w0) key = None"
  shows "(\<not> (typeof initial = ''object'' \<and> initial \<noteq> Null \<and> \<not> isArray initial) \<longrightarrow>
            getGlobalState key
              (setGlobalState key (Val v) (run acts (step (UseGlobalState key initial options) w0))) = v)
       \<and> ((typeof initial = ''object'' \<and> initial \<noteq> Null \<and> \<not> isArray initial)
            \<and> typeof v = ''object'' \<and> v \<noteq> Null \<longrightarrow>
            getGlobalState key
              (setGlobalState key (Val v) (run acts (step (UseGlobalState key initial options) w0)))
            = Obj (nextRef (run acts (step (UseGlobalState key initial options) w0)))
                (spread (getGlobalState key (run acts (step (UseGlobalState key initial options) w0))) v))"
proof -
  let ?w = "run acts (step (UseGlobalState key initial options) w0)"
  from created_then_run[OF assms, of acts initial options] obtain s where
    s: "Map_get (globalStates ?w) key = Some s"
    and o: "isObject s = (typeof initial = ''object'' \<and> initial \<noteq> Null \<and> \<not> isArray initial)"
    by auto
  from s have v: "getGlobalState key ?w = value s" by (simp add: getGlobalState_def)
  from setGlobalState_value(1)[OF s, of v] o v show ?thesis by simp
qed

text \<open>
  A store created with \<open>0\<close> whose value a functional update turned into
  \<^verbatim>\<open>{name: "John", age: 30}\<close>: \<^verbatim>\<open>set({name: "Jane"})\<close> replaces it. The store \<^verbatim>\<open>user\<close>: the
  array \<^verbatim>\<open>["Jane"]\<close> is merged under the key \<^verbatim>\<open>"0"\<close>.
\<close>

theorem merge_decision_fixed_at_creation_witness:
  "getGlobalState ''n''
     (run [SetGlobalState ''n'' (Fn toJohn)] (step (UseGlobalState ''n'' (Num (Fin 0)) None) (emptyWorld False)))
     = john
   \<and> getGlobalState ''n''
     (setGlobalState ''n'' (Val jane)
        (run [SetGlobalState ''n'' (Fn toJohn)] (step (UseGlobalState ''n'' (Num (Fin 0)) None) (emptyWorld False))))
     = jane
   \<and> getGlobalState ''user''
     (setGlobalState ''user'' (Val (Arr 2 [Str ''Jane'']))
        (run [] (step (UseGlobalState ''user'' john None) (emptyWorld False))))
     = Obj 100 [(''name'', Str ''John''), (''age'', Num (Fin 30)), (''0'', Str ''Jane'')]"
proof -
  have n: "Map_get (globalStates (emptyWorld False)) ''n'' = None"
    by (simp add: emptyWorld_def Map_get_def)
  have u: "Map_get (globalStates (emptyWorld False)) ''user'' = None"
    by (simp add: emptyWorld_def Map_get_def)
  have c: "getGlobalState ''n''
     (run [SetGlobalState ''n'' (Fn toJohn)] (step (UseGlobalState ''n'' (Num (Fin 0)) None) (emptyWorld False)))
     = john"
    by (simp add: api_defs fixture_defs)
  have a: "getGlobalState ''n''
     (setGlobalState ''n'' (Val jane)
        (run [SetGlobalState ''n'' (Fn toJohn)] (step (UseGlobalState ''n'' (Num (Fin 0)) None) (emptyWorld False))))
     = jane"
    using merge_decision_fixed_at_creation[OF n, of "Num (Fin 0)" jane "[SetGlobalState ''n'' (Fn toJohn)]" None]
    by simp
  have b: "getGlobalState ''user''
     (setGlobalState ''user'' (Val (Arr 2 [Str ''Jane'']))
        (run [] (step (UseGlobalState ''user'' john None) (emptyWorld False))))
     = Obj 100 [(''name'', Str ''John''), (''age'', Num (Fin 30)), (''0'', Str ''Jane'')]"
    using merge_decision_fixed_at_creation[OF u, of john "Arr 2 [Str ''Jane'']" "[]" None]
    by (simp add: api_defs fixture_defs string_of_nat.simps)
  from a b c show ?thesis by simp
qed

subsection \<open>External subscription\<close>

text \<open>
  The listener of \<^verbatim>\<open>src/index.tsx\<close> meets the specification of external subscription: from
  the moment it is added, the calls it makes are the reports of the values committed to
  its key, starting from the value the store held when it was added.
\<close>

lemma run_listener_lid: "lid (fst (run_listener v l)) = lid l"
  by (simp add: run_listener_def)

lemma notify_listeners_of:
  "filter (\<lambda>l. lid l = i) (fst (notify v ls))
     = map (\<lambda>l. fst (run_listener v l)) (filter (\<lambda>l. lid l = i) ls)"
  by (induction ls) (simp_all add: split_def Let_def run_listener_lid)

lemma notify_calls_of:
  "filter (\<lambda>c. fst c = i) (snd (notify v ls))
     = concat (map (\<lambda>l. snd (run_listener v l)) (filter (\<lambda>l. lid l = i) ls))"
  by (induction ls) (auto simp: split_def Let_def run_listener_def)

lemma setGlobalState_commit:
  assumes "Map_get (globalStates w) key = Some s"
  shows "\<exists>w'. setGlobalState key u w = commit key s (getGlobalState key (setGlobalState key u w)) w'
            \<and> calls w' = calls w"
proof (cases u)
  case (Fn f)
  with assms show ?thesis
    by (auto simp: setGlobalState_def setValue_def getGlobalState_def commit_get_same intro!: exI[of _ w])
next
  case (Val v)
  show ?thesis
  proof (cases "isObject s \<and> typeof v = ''object'' \<and> v \<noteq> Null")
    case True
    with assms Val show ?thesis
      by (auto simp: setGlobalState_def setValue_def getGlobalState_def commit_get_same
          intro!: exI[of _ "w\<lparr>nextRef := Suc (nextRef w)\<rparr>"])
  next
    case False
    with assms Val show ?thesis
      by (auto simp: setGlobalState_def setValue_def getGlobalState_def commit_get_same intro!: exI[of _ w])
  qed
qed

lemma writes_reported:
  assumes "Map_get (globalStates w) key = Some s"
    and "filter (\<lambda>l. lid l = i) (listeners s) = [l]"
    and "test l = ObjectIsTest"
  shows "callsOf i (setAll key us w)
           = callsOf i w @ map (\<lambda>(n, p). (callback l, n, p)) (reported (prevValue l) (committed key us w))"
  using assms
proof (induction us arbitrary: w s l)
  case Nil
  show ?case by simp
next
  case (Cons u us)
  let ?w1 = "setGlobalState key u w"
  let ?v = "getGlobalState key ?w1"
  from setGlobalState_commit[OF Cons.prems(1), of u] obtain w' where
    w1: "?w1 = commit key s ?v w'" and c: "calls w' = calls w"
    by blast
  let ?l1 = "fst (run_listener ?v l)"
  let ?s1 = "s\<lparr>value := ?v, listeners := fst (notify ?v (listeners s))\<rparr>"
  have s1: "Map_get (globalStates ?w1) key = Some ?s1"
    using commit_get_same[of key s ?v w'] w1 by simp
  have f1: "filter (\<lambda>l. lid l = i) (listeners ?s1) = [?l1]"
    using Cons.prems(2) by (simp add: notify_listeners_of)
  have t1: "test ?l1 = ObjectIsTest"
    using Cons.prems(3) by (simp add: run_listener_def)
  have cb1: "callback ?l1 = callback l"
    by (simp add: run_listener_def)
  have li: "lid l = i"
  proof -
    have "l \<in> set (filter (\<lambda>l. lid l = i) (listeners s))"
      by (simp only: Cons.prems(2)) simp
    then show ?thesis by simp
  qed
  have calls1: "callsOf i ?w1
      = callsOf i w @ (if Object_is ?v (prevValue l) then [] else [(callback l, ?v, prevValue l)])"
  proof -
    have "calls ?w1 = calls w @ snd (notify ?v (listeners s))"
      using commit_fields(5)[of key s ?v w'] w1 c by simp
    then show ?thesis
      using Cons.prems(2,3) li
      by (simp add: callsOf_def notify_calls_of run_listener_def)
  qed
  have p1: "prevValue ?l1 = (if Object_is ?v (prevValue l) then prevValue l else ?v)"
    using Cons.prems(3) by (simp add: run_listener_def)
  from Cons.IH[OF s1 f1 t1]
  have "callsOf i (setAll key us ?w1)
      = callsOf i ?w1 @ map (\<lambda>(n, p). (callback l, n, p)) (reported (prevValue ?l1) (committed key us ?w1))"
    by (simp only: cb1)
  with calls1 p1 show ?case by simp
qed

lemma subscribeGlobalState_reports:
  assumes "Map_get (globalStates w) key = Some s"
    and "nextListener w \<notin> lid ` set (listeners s)"
  shows "callsOf (nextListener w) (setAll key us (snd (subscribeGlobalState key cb w)))
           = callsOf (nextListener w) w
             @ map (\<lambda>(n, p). (cb, n, p))
                 (reported (value s) (committed key us (snd (subscribeGlobalState key cb w))))"
proof -
  let ?l = "\<lparr>lid = nextListener w, callback = cb, test = ObjectIsTest, prevValue = value s\<rparr>"
  let ?s1 = "s\<lparr>listeners := listeners s @ [?l]\<rparr>"
  let ?w1 = "snd (subscribeGlobalState key cb w)"
  have s1: "Map_get (globalStates ?w1) key = Some ?s1"
    using assms(1) by (simp add: subscribeGlobalState_def addListener_def Let_def Map_get_set_same)
  have "filter (\<lambda>l. lid l = nextListener w) (listeners s) = []"
    using assms(2) by (force simp: filter_empty_conv)
  then have f: "filter (\<lambda>l. lid l = nextListener w) (listeners ?s1) = [?l]"
    by simp
  have c: "calls ?w1 = calls w"
    using assms(1) by (simp add: subscribeGlobalState_def addListener_def Let_def)
  from writes_reported[OF s1 f, of us] c show ?thesis
    by (simp add: callsOf_def)
qed

text \<open>
  Scenario A: \<^verbatim>\<open>counter = 0\<close>; \<^verbatim>\<open>set(5)\<close> gives 5, \<^verbatim>\<open>set(prev => prev + 1)\<close> gives 6,
  \<^verbatim>\<open>reset()\<close> gives 0.
\<close>

lemma scenario_A:
  "getGlobalState ''counter'' (run [SetGlobalState ''counter'' (Val (Num (Fin 5)))] counterWorld)
     = Num (Fin 5)
   \<and> getGlobalState ''counter''
       (run [SetGlobalState ''counter'' (Val (Num (Fin 5))), SetGlobalState ''counter'' (Fn increment)]
          counterWorld)
     = Num (Fin 6)
   \<and> getGlobalState ''counter''
       (run [SetGlobalState ''counter'' (Val (Num (Fin 5))), SetGlobalState ''counter'' (Fn increment),
             ResetGlobalState ''counter''] counterWorld)
     = Num (Fin 0)"
  by (simp add: api_defs fixture_defs)

text \<open>
  Scenario E: a subscriber on \<^verbatim>\<open>counter = 0\<close>, then \<^verbatim>\<open>set(5)\<close> twice; one call, with
  \<^verbatim>\<open>(5, 0)\<close>.
\<close>

lemma scenario_E:
  "callsOf 0 (setAll ''counter'' [Val (Num (Fin 5)), Val (Num (Fin 5))]
       (snd (subscribeGlobalState ''counter'' 7 counterWorld)))
     = [(7, Num (Fin 5), Num (Fin 0))]"
  by (simp add: api_defs fixture_defs)

text \<open>
  C8. A subscriber is to be called with the new and the previous value exactly when the
  two differ under \<^verbatim>\<open>Object.is\<close>. The \<^verbatim>\<open>subscribeGlobalState\<close> of \<^verbatim>\<open>src/index.tsx\<close> does so
  (\<open>subscribeGlobalState_reports\<close>); the one of \<^verbatim>\<open>src/hooks/useGlobalState.tsx\<close> tests
  \<^verbatim>\<open>newValue !== prevValue\<close> and does not: on a store holding \<open>NaN\<close>, \<^verbatim>\<open>set(NaN)\<close> calls its
  subscriber with \<open>(NaN, NaN)\<close>, and on a store holding \<open>0\<close>, \<^verbatim>\<open>set(-0)\<close> does not call
  it, while the subscriber of \<^verbatim>\<open>src/index.tsx\<close> is silent in the first case and called in
  the second.
\<close>

theorem subscribeGlobalState_hooks_strict:
  "Object_is (Num NaN) (Num NaN)
   \<and> callsOf 0 (setAll ''ratio'' [Val (Num NaN)] (snd (subscribeGlobalState_hooks ''ratio'' 7 nanWorld)))
       = [(7, Num NaN, Num NaN)]
   \<and> callsOf 0 (setAll ''ratio'' [Val (Num NaN)] (snd (subscribeGlobalState ''ratio'' 7 nanWorld))) = []
   \<and> \<not> Object_is (Num NegZero) (Num (Fin 0))
   \<and> callsOf 0 (setAll ''zero'' [Val (Num NegZero)] (snd (subscribeGlobalState_hooks ''zero'' 7 zeroWorld))) = []
   \<and> callsOf 0 (setAll ''zero'' [Val (Num NegZero)] (snd (subscribeGlobalState ''zero'' 7 zeroWorld)))
       = [(7, Num NegZero, Num (Fin 0))]"
  by (simp add: api_defs fixture_defs)

lemma elementWorld_store: "Map_get (globalStates elementWorld) ''el'' = Some elementStore"
  by (simp add: api_defs fixture_defs)

text \<open>
  A render of a mounted component whose selection falls in the other class than at its
  previous render is rejected: the branch taken calls \<^verbatim>\<open>useShallow\<close> where the previous render
  did not, or the other way round.
\<close>

lemma classification_change_fails:
  assumes "Map_get (globalStates w) key = Some s"
    and "usedShallow h \<noteq> (typeof (selectorRef h (value s)) = ''object''
            \<and> selectorRef h (value s) \<noteq> Null \<and> \<not> isValidElement (selectorRef h (value s)))"
  shows "useGlobalSelector key selector None (Some h) w = (Inl HookOrderChanged, w)"
  using assms by (auto simp: useGlobalSelector_def boundHook_def Let_def)




end
